theory Spec2Isabelle
  imports Main
begin

section \<open>Python values and exceptions\<close>

text \<open>
  A Python exception is kept as the name of its class (\<^verbatim>\<open>type(e).__name__\<close>) and its
  message (\<^verbatim>\<open>str(e)\<close>): these are the two things \<^verbatim>\<open>main.py\<close> ever reads of one.
  A call that may raise returns \<open>exn + 'a\<close>, with \<open>Inl\<close> for the exception.
  Text is \<open>string\<close>; the model covers ASCII text (a character outside ASCII is
  neither a digit, nor white space, nor changed by \<open>lower\<close>).
\<close>

datatype exn = Exn (exn_type: string) (exn_msg: string)

definition ValueError :: "string \<Rightarrow> exn" where
  "ValueError msg = Exn ''ValueError'' msg"

definition py_repr_str :: "string \<Rightarrow> string" where
  \<comment> \<open>\<^verbatim>\<open>repr\<close> of a text without quotes or escapes in it\<close>
  "py_repr_str s = [CHR 0x27] @ s @ [CHR 0x27]"

definition KeyError :: "string \<Rightarrow> exn" where
  \<comment> \<open>\<^verbatim>\<open>str(KeyError(k))\<close> is \<^verbatim>\<open>repr(k)\<close>\<close>
  "KeyError k = Exn ''KeyError'' (py_repr_str k)"

subsection \<open>\<^verbatim>\<open>str.lower\<close>, \<^verbatim>\<open>int(str)\<close>, \<^verbatim>\<open>float(str)\<close>\<close>

definition lower_char :: "char \<Rightarrow> char" where
  "lower_char c =
     (case map_of (zip ''ABCDEFGHIJKLMNOPQRSTUVWXYZ'' ''abcdefghijklmnopqrstuvwxyz'') c of
        Some d \<Rightarrow> d
      | None \<Rightarrow> c)"

definition lower :: "string \<Rightarrow> string" where
  "lower s = map lower_char s"

definition is_space :: "char \<Rightarrow> bool" where
  \<comment> \<open>the characters \<^verbatim>\<open>int\<close> and \<^verbatim>\<open>float\<close> strip from an ASCII text: tab, LF, VT, FF, CR, space\<close>
  "is_space c = (c \<in> set [CHR 0x09, CHR 0x0A, CHR 0x0B, CHR 0x0C, CHR 0x0D, CHR 0x20])"

definition strip :: "string \<Rightarrow> string" where
  "strip s = rev (dropWhile is_space (rev (dropWhile is_space s)))"

definition is_digit :: "char \<Rightarrow> bool" where
  "is_digit c = (c \<in> set ''0123456789'')"

definition digit_val :: "char \<Rightarrow> nat" where
  "digit_val c = of_char c - 48"

definition digits_val :: "string \<Rightarrow> nat" where
  "digits_val ds = foldl (\<lambda>acc c. 10 * acc + digit_val c) 0 ds"

definition drop_sign :: "string \<Rightarrow> bool \<times> string" where
  \<comment> \<open>an optional single \<^verbatim>\<open>+\<close> or \<^verbatim>\<open>-\<close>; the flag says the sign was \<^verbatim>\<open>-\<close>\<close>
  "drop_sign s =
     (case s of
        [] \<Rightarrow> (False, [])
      | c # r \<Rightarrow> if c = CHR ''-'' then (True, r) else if c = CHR ''+'' then (False, r) else (False, s))"

fun int_digits :: "string \<Rightarrow> bool" where
  \<comment> \<open>one or more digits, single underscores allowed between two digits\<close>
  "int_digits [] = False"
| "int_digits [c] = is_digit c"
| "int_digits (c # d # r) =
     (is_digit c \<and> (if d = CHR ''_'' then int_digits r else int_digits (d # r)))"

definition int_max_str_digits :: nat where
  \<comment> \<open>\<^verbatim>\<open>sys.get_int_max_str_digits()\<close>, at the interpreter's default; 0 would switch the limit off\<close>
  "int_max_str_digits = 4300"

definition py_int :: "string \<Rightarrow> exn + int" where
  \<comment> \<open>\<^verbatim>\<open>int(s)\<close>, base 10; raises only ValueError, also for more digits than the limit\<close>
  "py_int s =
     (case drop_sign (strip s) of
        (neg, body) \<Rightarrow>
          if \<not> int_digits body
          then Inl (ValueError (''invalid literal for int() with base 10: '' @ py_repr_str s))
          else if 0 < int_max_str_digits \<and> int_max_str_digits < length (filter is_digit body)
          then Inl (ValueError ''Exceeds the limit for integer string conversion'')
          else Inr ((if neg then - 1 else 1) * int (digits_val (filter is_digit body))))"

fun float_underscores :: "string \<Rightarrow> bool" where
  \<comment> \<open>every underscore after the first character stands between two digits\<close>
  "float_underscores (c # d # r) =
     (if d = CHR ''_''
      then is_digit c \<and> (case r of [] \<Rightarrow> False | e # _ \<Rightarrow> is_digit e) \<and> float_underscores r
      else float_underscores (d # r))"
| "float_underscores _ = True"

definition float_exponent :: "string \<Rightarrow> bool" where
  \<comment> \<open>\<^verbatim>\<open>e\<close> or \<^verbatim>\<open>E\<close>, an optional sign, one or more digits\<close>
  "float_exponent s =
     (case s of
        [] \<Rightarrow> False
      | c # r \<Rightarrow> (c = CHR ''e'' \<or> c = CHR ''E'') \<and>
          (case drop_sign r of (_, ds) \<Rightarrow> ds \<noteq> [] \<and> list_all is_digit ds))"

definition float_decimal :: "string \<Rightarrow> bool" where
  \<comment> \<open>digits, an optional point and digits (a digit on one side at least), an optional exponent\<close>
  "float_decimal s =
     (let ip = takeWhile is_digit s;
          r1 = dropWhile is_digit s;
          fp = (case r1 of [] \<Rightarrow> [] | c # r \<Rightarrow> if c = CHR ''.'' then takeWhile is_digit r else []);
          r2 = (case r1 of [] \<Rightarrow> [] | c # r \<Rightarrow> if c = CHR ''.'' then dropWhile is_digit r else r1)
      in (ip \<noteq> [] \<or> fp \<noteq> []) \<and> (r2 = [] \<or> float_exponent r2))"

definition float_literal :: "string \<Rightarrow> bool" where
  "float_literal s =
     (let t = strip s
      in (case t of [] \<Rightarrow> False | c # _ \<Rightarrow> c \<noteq> CHR ''_'') \<and> float_underscores t \<and>
         (case drop_sign (filter (\<lambda>c. c \<noteq> CHR ''_'') t) of
            (_, r) \<Rightarrow> lower r \<in> set [''inf'', ''infinity'', ''nan''] \<or> float_decimal r))"

text \<open>
  Floating-point arithmetic is not modelled: the float that \<^verbatim>\<open>float(s)\<close> returns is
  represented by the text \<open>s\<close> it was read from.
\<close>

datatype pyfloat = FloatOf string

definition py_float :: "string \<Rightarrow> exn + pyfloat" where
  \<comment> \<open>\<^verbatim>\<open>float(s)\<close>; raises only ValueError\<close>
  "py_float s =
     (if float_literal s then Inr (FloatOf s)
      else Inl (ValueError (''could not convert string to float: '' @ py_repr_str s)))"

section \<open>Variants\<close>

text \<open>
  The members of \<^verbatim>\<open>ua.VariantType\<close>, and \<^verbatim>\<open>ua.Variant(value, varianttype)\<close>, whose
  constructor does not raise when it is given a value and a type.
\<close>

datatype variant_type =
    Null | Boolean | SByte | Byte | Int16 | UInt16 | Int32 | UInt32 | Int64 | UInt64
  | Float | Double | String | DateTime | Guid | ByteString | XmlElement | NodeId
  | ExpandedNodeId | StatusCode | QualifiedName | LocalizedText | ExtensionObject
  | DataValue | VariantT | DiagnosticInfo

datatype pyvalue = BoolV bool | IntV int | FloatV pyfloat | StrV string

datatype variant = Variant (Value: pyvalue) (VariantType: variant_type)

section \<open>\<^verbatim>\<open>auto_detect_variant\<close>\<close>

definition auto_detect_variant :: "string \<Rightarrow> exn + variant" where
  "auto_detect_variant value =
     (if lower value \<in> set [''true'', ''false'', ''on'', ''off'', ''yes'', ''no'']
      then
        (let bool_value = (lower value \<in> set [''true'', ''on'', ''yes'', ''1''])
         in Inr (Variant (BoolV bool_value) Boolean))
      else
        (case py_int value of
           Inr int_value \<Rightarrow>
             if - 32768 \<le> int_value \<and> int_value \<le> 32767
             then Inr (Variant (IntV int_value) Int16)
             else if - 2147483648 \<le> int_value \<and> int_value \<le> 2147483647
             then Inr (Variant (IntV int_value) Int32)
             else Inr (Variant (IntV int_value) Int64)
         | Inl e \<Rightarrow>
             if exn_type e \<noteq> ''ValueError'' then Inl e
             else
               (case py_float value of
                  Inr float_value \<Rightarrow> Inr (Variant (FloatV float_value) Float)
                | Inl e' \<Rightarrow>
                    if exn_type e' \<noteq> ''ValueError'' then Inl e'
                    else Inr (Variant (StrV value) String))))"

section \<open>The OPC UA library and the process state\<close>

text \<open>
  \<^verbatim>\<open>main.py\<close> reaches the node store only through the \<^verbatim>\<open>opcua\<close> package. The package is
  not part of the program, so it is a parameter: a record of its calls, each a function of
  the state \<open>'w\<close> of everything outside the program (server, network, the library's own
  objects) that returns the new outside state with its result. \<open>'c\<close> is a \<^verbatim>\<open>Client\<close>
  object, \<open>'o\<close> any Python object the program passes around without looking inside (node
  ids and values handed in by the caller, values read from nodes); \<open>py_str\<close> is \<^verbatim>\<open>str\<close> on
  such an object. \<open>get_node\<close> builds a node handle and does no I/O. \<open>get_data_value\<close>
  stands for lines 58-59 together: the call and the read of \<^verbatim>\<open>.Value.VariantType\<close>.
  A node handle is kept as the text \<^verbatim>\<open>node.nodeid.to_string()\<close> returns.
  Output on \<^verbatim>\<open>stderr\<close> is not modelled, and \<^verbatim>\<open>asyncio.to_thread(f, x)\<close> is the call
  \<^verbatim>\<open>f(x)\<close>.
\<close>

datatype node = Node (nodeid: string)

record qualified_name =
  NamespaceIndex :: nat
  Name :: string

record ('w, 'c, 'o) opcua =
  new_Client :: "string \<Rightarrow> 'w \<Rightarrow> (exn + 'c) \<times> 'w"
  set_user :: "'c \<Rightarrow> string \<Rightarrow> 'w \<Rightarrow> 'w"
  set_password :: "'c \<Rightarrow> string \<Rightarrow> 'w \<Rightarrow> 'w"
  connect :: "'c \<Rightarrow> 'w \<Rightarrow> (exn + unit) \<times> 'w"
  disconnect :: "'c \<Rightarrow> 'w \<Rightarrow> (exn + unit) \<times> 'w"
  get_node :: "'c \<Rightarrow> 'o \<Rightarrow> exn + node"
  get_value :: "node \<Rightarrow> 'w \<Rightarrow> (exn + 'o) \<times> 'w"
  get_data_value :: "node \<Rightarrow> 'w \<Rightarrow> (exn + variant_type) \<times> 'w"
  set_data_value :: "node \<Rightarrow> variant \<Rightarrow> 'w \<Rightarrow> (exn + unit) \<times> 'w"
  get_children :: "node \<Rightarrow> 'w \<Rightarrow> (exn + node list) \<times> 'w"
  get_browse_name :: "node \<Rightarrow> 'w \<Rightarrow> (exn + qualified_name) \<times> 'w"
  py_str :: "'o \<Rightarrow> string"

text \<open>The three module constants read from the environment (lines 11-13).\<close>

record config =
  server_url :: string
  username :: "string option"
  password :: "string option"

text \<open>
  The state: the global \<^verbatim>\<open>_opcua_client\<close>, the outside state, and a counter of the calls
  of \<^verbatim>\<open>Client.connect\<close> made so far (bookkeeping for the claims that count connects; no
  definition reads it).
\<close>

record ('w, 'c) state =
  opcua_client :: "'c option"
  world :: 'w
  connect_calls :: nat

definition truthy :: "string option \<Rightarrow> bool" where
  "truthy x = (case x of None \<Rightarrow> False | Some s \<Rightarrow> s \<noteq> [])"

section \<open>\<^verbatim>\<open>get_opcua_client\<close> and \<^verbatim>\<open>cleanup_client\<close>\<close>

definition get_opcua_client ::
  "('w, 'c, 'o) opcua \<Rightarrow> config \<Rightarrow> ('w, 'c) state \<Rightarrow> (exn + 'c) \<times> ('w, 'c) state" where
  "get_opcua_client L cfg s =
     (case opcua_client s of
        Some c \<Rightarrow> (Inr c, s)
      | None \<Rightarrow>
          (case new_Client L (server_url cfg) (world s) of
             (Inl e, w1) \<Rightarrow> (Inl e, s\<lparr>world := w1\<rparr>)
           | (Inr c, w1) \<Rightarrow>
               (let s1 = s\<lparr>opcua_client := Some c\<rparr>;
                    w2 = (if truthy (username cfg) \<and> truthy (password cfg)
                          then set_password L c (the (password cfg))
                                 (set_user L c (the (username cfg)) w1)
                          else w1)
                in case connect L c w2 of
                     (Inl e, w3) \<Rightarrow>
                       (Inl e, s1\<lparr>world := w3, connect_calls := connect_calls s + 1\<rparr>)
                   | (Inr _, w3) \<Rightarrow>
                       (Inr c, s1\<lparr>world := w3, connect_calls := connect_calls s + 1\<rparr>))))"

definition cleanup_client :: "('w, 'c, 'o) opcua \<Rightarrow> ('w, 'c) state \<Rightarrow> ('w, 'c) state" where
  "cleanup_client L s =
     (case opcua_client s of
        None \<Rightarrow> s
      | Some c \<Rightarrow>
          (case disconnect L c (world s) of
             (_, w1) \<Rightarrow> s\<lparr>opcua_client := None, world := w1\<rparr>))"

section \<open>\<^verbatim>\<open>detect_and_convert_value\<close>\<close>

definition int_variant :: "string \<Rightarrow> variant_type \<Rightarrow> exn + variant" where
  \<comment> \<open>\<^verbatim>\<open>ua.Variant(int(value), t)\<close>\<close>
  "int_variant value t = (case py_int value of Inl e \<Rightarrow> Inl e | Inr i \<Rightarrow> Inr (Variant (IntV i) t))"

definition float_variant :: "string \<Rightarrow> variant_type \<Rightarrow> exn + variant" where
  \<comment> \<open>\<^verbatim>\<open>ua.Variant(float(value), t)\<close>\<close>
  "float_variant value t =
     (case py_float value of Inl e \<Rightarrow> Inl e | Inr f \<Rightarrow> Inr (Variant (FloatV f) t))"

definition convert_by_type :: "variant_type \<Rightarrow> string \<Rightarrow> exn + variant" where
  \<comment> \<open>the chain of lines 64-92\<close>
  "convert_by_type current_variant_type value =
     (if current_variant_type = Int16 then int_variant value Int16
      else if current_variant_type = Int32 then int_variant value Int32
      else if current_variant_type = UInt16 then int_variant value UInt16
      else if current_variant_type = UInt32 then int_variant value UInt32
      else if current_variant_type = Byte then int_variant value Byte
      else if current_variant_type = SByte then int_variant value SByte
      else if current_variant_type = Int64 then int_variant value Int64
      else if current_variant_type = UInt64 then int_variant value UInt64
      else if current_variant_type = Float then float_variant value Float
      else if current_variant_type = Double then float_variant value Double
      else if current_variant_type = Boolean then
        (let bool_value = (lower value \<in> set [''true'', ''1'', ''on'', ''yes''])
         in Inr (Variant (BoolV bool_value) Boolean))
      else if current_variant_type = String then Inr (Variant (StrV value) String)
      else auto_detect_variant value)"

definition detect_and_convert_value ::
  "('w, 'c, 'o) opcua \<Rightarrow> node \<Rightarrow> string \<Rightarrow> 'w \<Rightarrow> (exn + variant) \<times> 'w" where
  "detect_and_convert_value L node value w =
     (case get_data_value L node w of
        (Inl e, w1) \<Rightarrow> (auto_detect_variant value, w1)
      | (Inr current_variant_type, w1) \<Rightarrow>
          (case convert_by_type current_variant_type value of
             Inl e \<Rightarrow> (auto_detect_variant value, w1)
           | Inr variant \<Rightarrow> (Inr variant, w1)))"

section \<open>What the tools build and return\<close>

text \<open>
  Every tool returns one text: either the success text, an f-string around the \<^verbatim>\<open>repr\<close>
  of the data the tool built, or the text of the outer handler,
  \<^verbatim>\<open>f"Error ...: {type(e).__name__}: {e}"\<close>. The model returns the data, or the
  exception, that the text is formatted from. A value inside the data is either an object
  that came from outside (\<open>Obj\<close>) or a text the program built itself (\<open>Text\<close>). A
  \<^verbatim>\<open>dict\<close> is the list of its items in insertion order.
\<close>

datatype 'a response = Success_text 'a | Error_text exn

datatype 'o py = Obj 'o | Text string

fun dict_set :: "('k \<times> 'v) list \<Rightarrow> 'k \<Rightarrow> 'v \<Rightarrow> ('k \<times> 'v) list" where
  \<comment> \<open>\<^verbatim>\<open>d[k] = v\<close>: a key already there keeps its place and takes the new value\<close>
  "dict_set [] k v = [(k, v)]"
| "dict_set ((k', v') # d) k v =
     (if k' = k then (k', v) # d else (k', v') # dict_set d k v)"

definition dict_of :: "('k \<times> 'v) list \<Rightarrow> ('k \<times> 'v) list" where
  \<comment> \<open>the comprehension \<^verbatim>\<open>{k: v for k, v in kvs}\<close>\<close>
  "dict_of kvs = foldl (\<lambda>d (k, v). dict_set d k v) [] kvs"

definition getitem :: "(string \<rightharpoonup> 'v) \<Rightarrow> string \<Rightarrow> exn + 'v" where
  \<comment> \<open>\<^verbatim>\<open>item[k]\<close> on a dict handed in by the caller\<close>
  "getitem item k = (case item k of None \<Rightarrow> Inl (KeyError k) | Some v \<Rightarrow> Inr v)"

fun str_nat :: "nat \<Rightarrow> string" where
  \<comment> \<open>\<^verbatim>\<open>str\<close> of a non-negative integer\<close>
  "str_nat n =
     (if n < 10 then [''0123456789'' ! n]
      else str_nat (n div 10) @ [''0123456789'' ! (n mod 10)])"

declare str_nat.simps [simp del]

section \<open>\<^verbatim>\<open>browse_opcua_node_children\<close>\<close>

definition child_entry :: "node \<Rightarrow> exn + qualified_name \<Rightarrow> (string \<times> string) list" where
  \<comment> \<open>lines 213-223: the entry appended for a child, from what \<^verbatim>\<open>get_browse_name\<close> did\<close>
  "child_entry child r =
     (case r of
        Inr browse_name \<Rightarrow>
          [(''node_id'', nodeid child),
           (''browse_name'', str_nat (NamespaceIndex browse_name) @ '':'' @ Name browse_name)]
      | Inl e \<Rightarrow>
          [(''node_id'', nodeid child),
           (''browse_name'', ''Error getting name: '' @ exn_msg e)])"

fun browse_children ::
  "('w, 'c, 'o) opcua \<Rightarrow> node list \<Rightarrow> (string \<times> string) list list \<Rightarrow> 'w
    \<Rightarrow> (string \<times> string) list list \<times> 'w" where
  \<comment> \<open>the loop of lines 212-223\<close>
  "browse_children L [] children_info w = (children_info, w)"
| "browse_children L (child # rest) children_info w =
     (case get_browse_name L child w of
        (r, w1) \<Rightarrow> browse_children L rest (children_info @ [child_entry child r]) w1)"

definition browse_opcua_node_children ::
  "('w, 'c, 'o) opcua \<Rightarrow> config \<Rightarrow> 'o \<Rightarrow> ('w, 'c) state
    \<Rightarrow> (string \<times> string) list list response \<times> ('w, 'c) state" where
  "browse_opcua_node_children L cfg node_id s =
     (case get_opcua_client L cfg s of
        (Inl e, s1) \<Rightarrow> (Error_text e, s1)
      | (Inr client, s1) \<Rightarrow>
          (case get_node L client node_id of
             Inl e \<Rightarrow> (Error_text e, s1)
           | Inr node \<Rightarrow>
               (case get_children L node (world s1) of
                  (Inl e, w1) \<Rightarrow> (Error_text e, s1\<lparr>world := w1\<rparr>)
                | (Inr children, w1) \<Rightarrow>
                    (case browse_children L children [] w1 of
                       (children_info, w2) \<Rightarrow>
                         (Success_text children_info, s1\<lparr>world := w2\<rparr>)))))"

section \<open>\<^verbatim>\<open>read_multiple_opcua_nodes\<close>\<close>

fun get_nodes :: "('w, 'c, 'o) opcua \<Rightarrow> 'c \<Rightarrow> 'o list \<Rightarrow> exn + node list" where
  \<comment> \<open>the comprehension of line 243; the first \<^verbatim>\<open>get_node\<close> that raises ends it\<close>
  "get_nodes L client [] = Inr []"
| "get_nodes L client (nid # rest) =
     (case get_node L client nid of
        Inl e \<Rightarrow> Inl e
      | Inr node \<Rightarrow>
          (case get_nodes L client rest of
             Inl e \<Rightarrow> Inl e
           | Inr nodes \<Rightarrow> Inr (node # nodes)))"

definition read_slot :: "node \<Rightarrow> exn + 'o \<Rightarrow> 'o py" where
  \<comment> \<open>lines 248-252: what is appended for a node, from what \<^verbatim>\<open>get_value\<close> did\<close>
  "read_slot node r =
     (case r of
        Inr value \<Rightarrow> Obj value
      | Inl e \<Rightarrow> Text (''Error reading node '' @ nodeid node @ '': '' @ exn_msg e))"

fun read_nodes ::
  "('w, 'c, 'o) opcua \<Rightarrow> node list \<Rightarrow> 'o py list \<Rightarrow> 'w \<Rightarrow> 'o py list \<times> 'w" where
  \<comment> \<open>the loop of lines 247-252\<close>
  "read_nodes L [] values w = (values, w)"
| "read_nodes L (node # rest) values w =
     (case get_value L node w of
        (r, w1) \<Rightarrow> read_nodes L rest (values @ [read_slot node r]) w1)"

definition read_multiple_opcua_nodes ::
  "('w, 'c, 'o) opcua \<Rightarrow> config \<Rightarrow> 'o list \<Rightarrow> ('w, 'c) state
    \<Rightarrow> (string \<times> 'o py) list response \<times> ('w, 'c) state" where
  "read_multiple_opcua_nodes L cfg node_ids s =
     (case get_opcua_client L cfg s of
        (Inl e, s1) \<Rightarrow> (Error_text e, s1)
      | (Inr client, s1) \<Rightarrow>
          (case get_nodes L client node_ids of
             Inl e \<Rightarrow> (Error_text e, s1)
           | Inr nodes_to_read \<Rightarrow>
               (case read_nodes L nodes_to_read [] (world s1) of
                  (values, w1) \<Rightarrow>
                    (Success_text (dict_of (zip (map nodeid nodes_to_read) values)),
                     s1\<lparr>world := w1\<rparr>))))"

section \<open>\<^verbatim>\<open>write_multiple_opcua_nodes\<close>\<close>

definition write_item ::
  "('w, 'c, 'o) opcua \<Rightarrow> 'c \<Rightarrow> (string \<rightharpoonup> 'o) \<Rightarrow> 'w \<Rightarrow> (exn + (string \<times> 'o py) list) \<times> 'w" where
  \<comment> \<open>the body of the inner \<^verbatim>\<open>try\<close>, lines 284-301\<close>
  "write_item L client item w =
     (case getitem item ''node_id'' of
        Inl e \<Rightarrow> (Inl e, w)
      | Inr nid \<Rightarrow>
     (case get_node L client nid of
        Inl e \<Rightarrow> (Inl e, w)
      | Inr node \<Rightarrow>
     (case getitem item ''value'' of
        Inl e \<Rightarrow> (Inl e, w)
      | Inr v \<Rightarrow>
     (case detect_and_convert_value L node (py_str L v) w of
        (Inl e, w1) \<Rightarrow> (Inl e, w1)
      | (Inr variant, w1) \<Rightarrow>
     (case set_data_value L node variant w1 of
        (Inl e, w2) \<Rightarrow> (Inl e, w2)
      | (Inr _, w2) \<Rightarrow>
     (case get_value L node w2 of
        (Inl e, w3) \<Rightarrow> (Inl e, w3)
      | (Inr new_value, w3) \<Rightarrow>
          (Inr [(''node_id'', Obj nid), (''value_written'', Obj v),
                (''verified_value'', Obj new_value), (''status'', Text ''Success'')],
           w3)))))))"

definition write_item_failed :: "(string \<rightharpoonup> 'o) \<Rightarrow> exn \<Rightarrow> exn + (string \<times> 'o py) list" where
  \<comment> \<open>the inner handler, lines 302-307: the record it builds, or the exception it raises\<close>
  "write_item_failed item e =
     (case getitem item ''node_id'' of
        Inl e' \<Rightarrow> Inl e'
      | Inr nid \<Rightarrow>
     (case getitem item ''value'' of
        Inl e' \<Rightarrow> Inl e'
      | Inr v \<Rightarrow>
          Inr [(''node_id'', Obj nid), (''value_written'', Obj v),
               (''status'', Text (''Error: '' @ exn_msg e))]))"

fun write_items ::
  "('w, 'c, 'o) opcua \<Rightarrow> 'c \<Rightarrow> (string \<rightharpoonup> 'o) list \<Rightarrow> (string \<times> 'o py) list list \<Rightarrow> 'w
    \<Rightarrow> (exn + (string \<times> 'o py) list list) \<times> 'w" where
  \<comment> \<open>the loop of lines 282-307\<close>
  "write_items L client [] status_report w = (Inr status_report, w)"
| "write_items L client (item # rest) status_report w =
     (case write_item L client item w of
        (Inr r, w1) \<Rightarrow> write_items L client rest (status_report @ [r]) w1
      | (Inl e, w1) \<Rightarrow>
          (case write_item_failed item e of
             Inl e' \<Rightarrow> (Inl e', w1)
           | Inr r \<Rightarrow> write_items L client rest (status_report @ [r]) w1))"

definition write_multiple_opcua_nodes ::
  "('w, 'c, 'o) opcua \<Rightarrow> config \<Rightarrow> (string \<rightharpoonup> 'o) list \<Rightarrow> ('w, 'c) state
    \<Rightarrow> (string \<times> 'o py) list list response \<times> ('w, 'c) state" where
  "write_multiple_opcua_nodes L cfg nodes_to_write s =
     (case get_opcua_client L cfg s of
        (Inl e, s1) \<Rightarrow> (Error_text e, s1)
      | (Inr client, s1) \<Rightarrow>
          (case write_items L client nodes_to_write [] (world s1) of
             (Inl e, w1) \<Rightarrow> (Error_text e, s1\<lparr>world := w1\<rparr>)
           | (Inr status_report, w1) \<Rightarrow> (Success_text status_report, s1\<lparr>world := w1\<rparr>)))"

section \<open>A simulated node store\<close>

text \<open>
  A small stand-in for the library and a server, to run the program on: one client object,
  a server that may refuse the connection, nodes with a current variant each, a table of
  children and a table of browse names. A node id is well formed here when it contains
  \<^verbatim>\<open>=\<close>; every call on a node fails while the client is not connected, and a write of a
  variant whose type differs from the node's is rejected. Caller objects are \<open>pyvalue\<close>s.
\<close>

record sim_world =
  reachable :: bool
  connected :: bool
  node_values :: "(string \<times> variant) list"
  node_children :: "(string \<times> string list) list"
  node_names :: "(string \<times> qualified_name) list"

definition sim_connect :: "nat \<Rightarrow> sim_world \<Rightarrow> (exn + unit) \<times> sim_world" where
  "sim_connect c w =
     (if reachable w then (Inr (), w\<lparr>connected := True\<rparr>)
      else (Inl (Exn ''ConnectionRefusedError'' ''Connection refused''), w))"

definition sim_get_node :: "nat \<Rightarrow> pyvalue \<Rightarrow> exn + node" where
  "sim_get_node c x =
     (case x of
        StrV s \<Rightarrow>
          if CHR ''='' \<in> set s then Inr (Node s)
          else Inl (Exn ''UaStringParsingError'' (''Error parsing string '' @ s))
      | _ \<Rightarrow> Inl (Exn ''UaError'' ''invalid node id''))"

definition sim_lookup ::
  "(sim_world \<Rightarrow> (string \<times> 'a) list) \<Rightarrow> node \<Rightarrow> sim_world \<Rightarrow> (exn + 'a) \<times> sim_world" where
  "sim_lookup table node w =
     (if \<not> connected w then (Inl (Exn ''ConnectionError'' ''not connected''), w)
      else
        (case map_of (table w) (nodeid node) of
           None \<Rightarrow> (Inl (Exn ''BadNodeIdUnknown'' ''The node id does not exist''), w)
         | Some x \<Rightarrow> (Inr x, w)))"

definition sim_set_data_value :: "node \<Rightarrow> variant \<Rightarrow> sim_world \<Rightarrow> (exn + unit) \<times> sim_world" where
  "sim_set_data_value node v w =
     (case sim_lookup node_values node w of
        (Inl e, w1) \<Rightarrow> (Inl e, w1)
      | (Inr old, w1) \<Rightarrow>
          if VariantType old \<noteq> VariantType v
          then (Inl (Exn ''BadTypeMismatch'' ''type mismatch''), w1)
          else (Inr (), w1\<lparr>node_values := dict_set (node_values w1) (nodeid node) v\<rparr>))"

definition sim_str :: "pyvalue \<Rightarrow> string" where
  "sim_str x =
     (case x of
        StrV s \<Rightarrow> s
      | BoolV b \<Rightarrow> (if b then ''True'' else ''False'')
      | IntV i \<Rightarrow> (if i < 0 then ''-'' @ str_nat (nat (- i)) else str_nat (nat i))
      | FloatV (FloatOf s) \<Rightarrow> s)"

definition sim :: "(sim_world, nat, pyvalue) opcua" where
  "sim =
     \<lparr>new_Client = (\<lambda>url w. (Inr 0, w)),
      set_user = (\<lambda>c u w. w),
      set_password = (\<lambda>c p w. w),
      connect = sim_connect,
      disconnect = (\<lambda>c w. (Inr (), w\<lparr>connected := False\<rparr>)),
      get_node = sim_get_node,
      get_value = (\<lambda>node w. case sim_lookup node_values node w of
                               (r, w1) \<Rightarrow> (map_sum id Value r, w1)),
      get_data_value = (\<lambda>node w. case sim_lookup node_values node w of
                                    (r, w1) \<Rightarrow> (map_sum id VariantType r, w1)),
      set_data_value = sim_set_data_value,
      get_children = (\<lambda>node w. case sim_lookup node_children node w of
                                  (r, w1) \<Rightarrow> (map_sum id (map Node) r, w1)),
      get_browse_name = sim_lookup node_names,
      py_str = sim_str\<rparr>"

definition sim_cfg :: config where
  "sim_cfg = \<lparr>server_url = ''opc.tcp://192.168.0.100:5005'', username = None, password = None\<rparr>"

definition plant :: sim_world where
  \<comment> \<open>a reachable server: four variables and a folder, one of whose children has no name\<close>
  "plant =
     \<lparr>reachable = True, connected = False,
      node_values = [(''ns=2;i=2'', Variant (IntV 0) Int16),
                     (''ns=2;i=3'', Variant (StrV ''idle'') String),
                     (''ns=2;i=4'', Variant (StrV ''2024-01-01'') DateTime),
                     (''ns=2;i=5'', Variant (BoolV False) Boolean)],
      node_children = [(''ns=2;i=1'', [''ns=2;i=2'', ''ns=2;i=9''])],
      node_names = [(''ns=2;i=2'', \<lparr>NamespaceIndex = 2, Name = ''Speed''\<rparr>)]\<rparr>"

definition start :: "sim_world \<Rightarrow> (sim_world, nat) state" where
  \<comment> \<open>the state at start-up: no client yet, no connect made\<close>
  "start w = \<lparr>opcua_client = None, world = w, connect_calls = 0\<rparr>"

definition online :: sim_world where
  \<comment> \<open>the same server once the client is connected\<close>
  "online = plant\<lparr>connected := True\<rparr>"

definition running :: "(sim_world, nat) state" where
  \<comment> \<open>the state after the first successful \<^verbatim>\<open>get_opcua_client\<close>\<close>
  "running = \<lparr>opcua_client = Some 0, world = online, connect_calls = 1\<rparr>"

definition unreachable :: sim_world where
  \<comment> \<open>the same server while it refuses connections\<close>
  "unreachable = plant\<lparr>reachable := False\<rparr>"

definition stale :: "sim_world \<Rightarrow> (sim_world, nat) state" where
  \<comment> \<open>the state a refused connect leaves behind, over the outside state \<open>w\<close>\<close>
  "stale w = \<lparr>opcua_client = Some 0, world = w, connect_calls = 1\<rparr>"

definition item_good :: "string \<rightharpoonup> pyvalue" where
  \<comment> \<open>three items for the batch write: a good one, one with a malformed id, one without a value\<close>
  "item_good = [''node_id'' \<mapsto> StrV ''ns=2;i=2'', ''value'' \<mapsto> StrV ''10'']"

definition item_bad_id :: "string \<rightharpoonup> pyvalue" where
  "item_bad_id = [''node_id'' \<mapsto> StrV ''BAD'', ''value'' \<mapsto> StrV ''x'']"

definition item_no_value :: "string \<rightharpoonup> pyvalue" where
  "item_no_value = [''node_id'' \<mapsto> StrV ''ns=2;i=3'']"

definition written :: sim_world where
  \<comment> \<open>the connected server after 10 was written to the first variable\<close>
  "written = online\<lparr>node_values := dict_set (node_values online) ''ns=2;i=2'' (Variant (IntV 10) Int16)\<rparr>"

section \<open>Evaluation and basic facts\<close>

lemmas py_eval = py_int_def int_max_str_digits_def strip_def is_space_def drop_sign_def is_digit_def digits_val_def
  digit_val_def lower_def lower_char_def py_float_def float_literal_def float_decimal_def
  float_exponent_def ValueError_def auto_detect_variant_def convert_by_type_def
  int_variant_def float_variant_def py_repr_str_def

lemmas sim_eval = sim_def sim_lookup_def sim_connect_def sim_get_node_def
  sim_set_data_value_def sim_str_def plant_def start_def sim_cfg_def online_def running_def
  unreachable_def stale_def

lemmas item_eval = item_good_def item_bad_id_def item_no_value_def written_def

lemmas run_eval = get_opcua_client_def truthy_def read_multiple_opcua_nodes_def dict_of_def
  read_slot_def write_multiple_opcua_nodes_def write_item_def write_item_failed_def getitem_def
  detect_and_convert_value_def browse_opcua_node_children_def child_entry_def KeyError_def

lemma py_int_raises: "py_int s = Inl e \<Longrightarrow> exn_type e = ''ValueError''"
  by (auto simp: py_int_def ValueError_def split: prod.splits if_splits)

lemma py_float_raises: "py_float s = Inl e \<Longrightarrow> exn_type e = ''ValueError''"
  by (auto simp: py_float_def ValueError_def split: if_splits)

lemma auto_detect_variant_returns: "\<exists>v. auto_detect_variant value = Inr v"
  by (auto simp: auto_detect_variant_def Let_def dest: py_int_raises py_float_raises split: sum.splits)

text \<open>
  Two edges of \<^verbatim>\<open>int\<close>. A text that starts with the separator character FS is no integer,
  since only tab, LF, VT, FF, CR and space are stripped, and is auto-detected as a String.
  A text of more digits than the limit is refused by \<^verbatim>\<open>int\<close> and read by \<^verbatim>\<open>float\<close>, so
  it is auto-detected as a Float and not as an Int64.
\<close>

lemma py_int_separator:
  "py_int [CHR 0x1C, CHR ''1'', CHR ''2''] =
     Inl (ValueError (''invalid literal for int() with base 10: '' @
            py_repr_str [CHR 0x1C, CHR ''1'', CHR ''2''])) \<and>
   auto_detect_variant [CHR 0x1C, CHR ''1'', CHR ''2''] =
     Inr (Variant (StrV [CHR 0x1C, CHR ''1'', CHR ''2'']) String)"
  by (simp add: py_eval)

lemma int_digits_replicate: "int_digits (replicate (Suc n) (CHR ''1''))"
  by (induction n) (simp_all add: is_digit_def)

lemma float_underscores_replicate: "float_underscores (replicate (Suc n) (CHR ''1''))"
  by (induction n) simp_all

lemma long_text_is_no_word:
  "6 \<le> length s \<Longrightarrow> lower s \<notin> set [''true'', ''false'', ''on'', ''off'', ''yes'', ''no'']"
  by (auto simp: lower_def dest!: arg_cong [where f = length])

lemma auto_detect_variant_digit_limit:
  assumes "int_max_str_digits < n"
  shows "py_int (replicate n (CHR ''1'')) =
           Inl (ValueError ''Exceeds the limit for integer string conversion'') \<and>
         auto_detect_variant (replicate n (CHR ''1'')) =
           Inr (Variant (FloatV (FloatOf (replicate n (CHR ''1'')))) Float)"
proof -
  let ?s = "replicate n (CHR ''1'')"
  from assms obtain m where n: "n = Suc m" by (cases n) (auto simp: int_max_str_digits_def)
  have st: "strip ?s = ?s" by (simp add: strip_def is_space_def)
  have ds: "drop_sign ?s = (False, ?s)" using n by (simp add: drop_sign_def)
  have dg: "int_digits ?s" unfolding n by (rule int_digits_replicate)
  have fl: "filter is_digit ?s = ?s" by (simp add: is_digit_def)
  have pi: "py_int ?s = Inl (ValueError ''Exceeds the limit for integer string conversion'')"
    using assms by (simp add: py_int_def st ds dg fl int_max_str_digits_def)
  have nu: "filter (\<lambda>c. c \<noteq> CHR ''_'') ?s = ?s" by simp
  have nw: "lower ?s \<notin> set [''inf'', ''infinity'', ''nan'']"
    using assms by (auto simp: lower_def int_max_str_digits_def dest!: arg_cong [where f = length])
  have fd: "float_decimal ?s"
    using n by (simp add: float_decimal_def is_digit_def)
  have hd: "(case ?s of [] \<Rightarrow> False | c # _ \<Rightarrow> c \<noteq> CHR ''_'')" using n by simp
  have "float_literal ?s"
    unfolding float_literal_def Let_def st nu ds
    using hd fd float_underscores_replicate [of m] n by simp
  then have pf: "py_float ?s = Inr (FloatOf ?s)" by (simp add: py_float_def)
  have "6 \<le> length ?s" using assms by (simp add: int_max_str_digits_def)
  from long_text_is_no_word [OF this] pi pf show ?thesis
    by (simp add: auto_detect_variant_def ValueError_def)
qed

lemma cleanup_client_clears: "opcua_client (cleanup_client L s) = None"
  by (simp add: cleanup_client_def split: option.splits prod.splits)

lemma convert_by_type_unhandled:
  "t \<notin> set [Int16, Int32, UInt16, UInt32, Byte, SByte, Int64, UInt64, Float, Double,
             Boolean, String] \<Longrightarrow> convert_by_type t value = auto_detect_variant value"
  by (simp add: convert_by_type_def)

lemma detect_unhandled:
  assumes "get_data_value L node w = (Inr t, w1)"
    and "convert_by_type t value = auto_detect_variant value"
  shows "detect_and_convert_value L node value w = (auto_detect_variant value, w1)"
  using assms by (simp add: detect_and_convert_value_def split: sum.splits)

section \<open>The coercion engine\<close>

text \<open>
  C3, as the code has it. When the declared type of the node was retrieved, is one of the
  twelve types the chain handles, and the text converts under it (\<^verbatim>\<open>int\<close> accepts it for
  the eight integer types, \<^verbatim>\<open>float\<close> accepts it for Float and Double, nothing to check for
  Boolean and String), the variant returned carries the declared type. In every other case
  (the type was retrieved but is not handled, or the text does not convert under it, or the
  type could not be retrieved) the result is the auto-detection of the text.
\<close>

theorem detect_and_convert_value_wire_type:
  "(\<forall>t w1. get_data_value L node w = (Inr t, w1) \<longrightarrow>
      (if (t \<in> set [Int16, Int32, UInt16, UInt32, Byte, SByte, Int64, UInt64] \<and>
             (\<exists>i. py_int value = Inr i)) \<or>
          (t \<in> set [Float, Double] \<and> (\<exists>f. py_float value = Inr f)) \<or>
          t \<in> set [Boolean, String]
       then \<exists>v. detect_and_convert_value L node value w = (Inr (Variant v t), w1)
       else detect_and_convert_value L node value w = (auto_detect_variant value, w1))) \<and>
   (\<forall>e w1. get_data_value L node w = (Inl e, w1) \<longrightarrow>
      detect_and_convert_value L node value w = (auto_detect_variant value, w1))"
proof (intro conjI allI impI)
  fix e w1 assume "get_data_value L node w = (Inl e, w1)"
  then show "detect_and_convert_value L node value w = (auto_detect_variant value, w1)"
    by (simp add: detect_and_convert_value_def)
next
  fix t w1 assume g: "get_data_value L node w = (Inr t, w1)"
  let ?ints = "[Int16, Int32, UInt16, UInt32, Byte, SByte, Int64, UInt64]"
  consider (int) "t \<in> set ?ints" | (float) "t \<in> set [Float, Double]"
    | (plain) "t \<in> set [Boolean, String]"
    | (other) "t \<notin> set [Int16, Int32, UInt16, UInt32, Byte, SByte, Int64, UInt64, Float,
                          Double, Boolean, String]"
    by auto
  then show "if (t \<in> set ?ints \<and> (\<exists>i. py_int value = Inr i)) \<or>
          (t \<in> set [Float, Double] \<and> (\<exists>f. py_float value = Inr f)) \<or>
          t \<in> set [Boolean, String]
       then \<exists>v. detect_and_convert_value L node value w = (Inr (Variant v t), w1)
       else detect_and_convert_value L node value w = (auto_detect_variant value, w1)"
  proof cases
    case int
    then have c: "convert_by_type t value = int_variant value t"
      by (auto simp: convert_by_type_def)
    from int have n: "t \<notin> set [Float, Double]" "t \<notin> set [Boolean, String]" by auto
    show ?thesis using g c n int
      by (cases "py_int value") (auto simp: detect_and_convert_value_def int_variant_def)
  next
    case float
    then have c: "convert_by_type t value = float_variant value t"
      by (auto simp: convert_by_type_def)
    from float have n: "t \<notin> set ?ints" "t \<notin> set [Boolean, String]" by auto
    show ?thesis using g c n float
      by (cases "py_float value") (auto simp: detect_and_convert_value_def float_variant_def)
  next
    case plain
    then show ?thesis using g
      by (auto simp: detect_and_convert_value_def convert_by_type_def Let_def)
  next
    case other
    from detect_unhandled [OF g convert_by_type_unhandled [OF other]] other
    show ?thesis by auto
  qed
qed

theorem detect_and_convert_value_wire_type_witness:
  "get_data_value sim (Node ''ns=2;i=2'') online = (Inr Int16, online) \<and>
   py_int ''10'' = Inr 10 \<and>
   detect_and_convert_value sim (Node ''ns=2;i=2'') ''10'' online =
     (Inr (Variant (IntV 10) Int16), online) \<and>
   get_data_value sim (Node ''ns=2;i=9'') online =
     (Inl (Exn ''BadNodeIdUnknown'' ''The node id does not exist''), online) \<and>
   detect_and_convert_value sim (Node ''ns=2;i=9'') ''10'' online =
     (auto_detect_variant ''10'', online)"
  using detect_and_convert_value_wire_type [of sim "Node ''ns=2;i=2''" online "''10''"]
    detect_and_convert_value_wire_type [of sim "Node ''ns=2;i=9''" online "''10''"]
  by (simp add: sim_eval py_eval detect_and_convert_value_def)

text \<open>
  The declared type alone does not decide the type of the result: the node below declares
  Int16, the text \<^verbatim>\<open>abc\<close> is no integer, and the variant returned is a String.
\<close>

theorem detect_and_convert_value_wire_type_counterexample:
  "get_data_value sim (Node ''ns=2;i=2'') online = (Inr Int16, online) \<and>
   detect_and_convert_value sim (Node ''ns=2;i=2'') ''abc'' online =
     (Inr (Variant (StrV ''abc'') String), online)"
  by (simp add: sim_eval py_eval detect_and_convert_value_def)

text \<open>
  C4: \<^verbatim>\<open>detect_and_convert_value\<close> returns a variant for every library, node, text and
  outside state, and never an exception; when the declared type cannot be retrieved, when
  it is none of the handled types, and when the conversion under it raises, what it returns
  is the auto-detection of the text.
\<close>

theorem detect_and_convert_value_total:
  "(\<exists>v. fst (detect_and_convert_value L node value w) = Inr v) \<and>
   (\<forall>e w1. get_data_value L node w = (Inl e, w1) \<longrightarrow>
      detect_and_convert_value L node value w = (auto_detect_variant value, w1)) \<and>
   (\<forall>t w1. get_data_value L node w = (Inr t, w1) \<longrightarrow>
      t \<notin> set [Int16, Int32, UInt16, UInt32, Byte, SByte, Int64, UInt64, Float, Double,
                 Boolean, String] \<longrightarrow>
      detect_and_convert_value L node value w = (auto_detect_variant value, w1)) \<and>
   (\<forall>t w1 e. get_data_value L node w = (Inr t, w1) \<longrightarrow> convert_by_type t value = Inl e \<longrightarrow>
      detect_and_convert_value L node value w = (auto_detect_variant value, w1))"
proof (intro conjI allI impI)
  show "\<exists>v. fst (detect_and_convert_value L node value w) = Inr v"
    using auto_detect_variant_returns [of "value"]
    by (auto simp: detect_and_convert_value_def split: prod.splits sum.splits)
next
  fix e w1 assume "get_data_value L node w = (Inl e, w1)"
  then show "detect_and_convert_value L node value w = (auto_detect_variant value, w1)"
    by (simp add: detect_and_convert_value_def)
next
  fix t w1
  assume g: "get_data_value L node w = (Inr t, w1)"
    and t: "t \<notin> set [Int16, Int32, UInt16, UInt32, Byte, SByte, Int64, UInt64, Float, Double,
                 Boolean, String]"
  show "detect_and_convert_value L node value w = (auto_detect_variant value, w1)"
    by (rule detect_unhandled [OF g convert_by_type_unhandled [OF t]])
next
  fix t w1 e
  assume "get_data_value L node w = (Inr t, w1)" "convert_by_type t value = Inl e"
  then show "detect_and_convert_value L node value w = (auto_detect_variant value, w1)"
    by (simp add: detect_and_convert_value_def)
qed

theorem detect_and_convert_value_total_witness:
  "get_data_value sim (Node ''ns=2;i=9'') online =
     (Inl (Exn ''BadNodeIdUnknown'' ''The node id does not exist''), online) \<and>
   detect_and_convert_value sim (Node ''ns=2;i=9'') ''3.5'' online =
     (Inr (Variant (FloatV (FloatOf ''3.5'')) Float), online) \<and>
   get_data_value sim (Node ''ns=2;i=4'') online = (Inr DateTime, online) \<and>
   detect_and_convert_value sim (Node ''ns=2;i=4'') ''70000'' online =
     (Inr (Variant (IntV 70000) Int32), online) \<and>
   get_data_value sim (Node ''ns=2;i=2'') online = (Inr Int16, online) \<and>
   convert_by_type Int16 ''on'' =
     Inl (ValueError (''invalid literal for int() with base 10: '' @ py_repr_str ''on'')) \<and>
   detect_and_convert_value sim (Node ''ns=2;i=2'') ''on'' online =
     (Inr (Variant (BoolV True) Boolean), online)"
  using detect_and_convert_value_total [of sim "Node ''ns=2;i=9''" "''3.5''" online]
    detect_and_convert_value_total [of sim "Node ''ns=2;i=4''" "''70000''" online]
    detect_and_convert_value_total [of sim "Node ''ns=2;i=2''" "''on''" online]
  by (simp add: sim_eval py_eval detect_and_convert_value_def)

text \<open>
  C5: when \<^verbatim>\<open>int\<close> reads the text as the integer \<open>v\<close> and the text is none of the six
  boolean words, auto-detection tags \<open>v\<close> with Int16 if \<open>-32768 \<le> v \<le> 32767\<close>, with Int32
  if \<open>32768 \<le> v \<le> 2147483647\<close> or \<open>-2147483648 \<le> v < -32768\<close>, and with Int64 otherwise.
  The witness is the boundary: 32767 is Int16 and 32768 is Int32.
\<close>

theorem auto_detect_integer_width:
  assumes "py_int value = Inr v"
    and "lower value \<notin> set [''true'', ''false'', ''on'', ''off'', ''yes'', ''no'']"
  shows "auto_detect_variant value =
           Inr (Variant (IntV v)
             (if - 32768 \<le> v \<and> v \<le> 32767 then Int16
              else if (32768 \<le> v \<and> v \<le> 2147483647) \<or> (- 2147483648 \<le> v \<and> v < - 32768)
              then Int32 else Int64))"
  using assms by (auto simp: auto_detect_variant_def)

theorem auto_detect_integer_width_witness:
  "py_int ''32767'' = Inr 32767 \<and>
   lower ''32767'' \<notin> set [''true'', ''false'', ''on'', ''off'', ''yes'', ''no''] \<and>
   auto_detect_variant ''32767'' = Inr (Variant (IntV 32767) Int16) \<and>
   py_int ''32768'' = Inr 32768 \<and>
   lower ''32768'' \<notin> set [''true'', ''false'', ''on'', ''off'', ''yes'', ''no''] \<and>
   auto_detect_variant ''32768'' = Inr (Variant (IntV 32768) Int32)"
proof -
  have a: "py_int ''32767'' = Inr 32767" by (simp add: py_eval)
  have b: "lower ''32767'' \<notin> set [''true'', ''false'', ''on'', ''off'', ''yes'', ''no'']"
    by (simp add: py_eval)
  have c: "py_int ''32768'' = Inr 32768" by (simp add: py_eval)
  have d: "lower ''32768'' \<notin> set [''true'', ''false'', ''on'', ''off'', ''yes'', ''no'']"
    by (simp add: py_eval)
  show ?thesis
    using a b c d auto_detect_integer_width [OF a b] auto_detect_integer_width [OF c d]
    by simp
qed

text \<open>
  C8: a text whose lower case is one of the six words true, false, on, off, yes, no is
  auto-detected as a Boolean that is true iff the lower-cased text is in
  \<^verbatim>\<open>('true', 'on', 'yes', '1')\<close>, and auto-detection gives a Boolean for no other text; when
  the node declares Boolean, the result is a Boolean that is true iff the lower-cased text
  is in \<^verbatim>\<open>('true', '1', 'on', 'yes')\<close>, so false for every other text.
\<close>

theorem boolean_coercion:
  "(lower value \<in> set [''true'', ''false'', ''on'', ''off'', ''yes'', ''no''] \<longrightarrow>
      auto_detect_variant value =
        Inr (Variant (BoolV (lower value \<in> set [''true'', ''on'', ''yes'', ''1''])) Boolean)) \<and>
   ((\<exists>b. auto_detect_variant value = Inr (Variant b Boolean)) \<longrightarrow>
      lower value \<in> set [''true'', ''false'', ''on'', ''off'', ''yes'', ''no'']) \<and>
   (\<forall>w1. get_data_value L node w = (Inr Boolean, w1) \<longrightarrow>
      detect_and_convert_value L node value w =
        (Inr (Variant (BoolV (lower value \<in> set [''true'', ''1'', ''on'', ''yes''])) Boolean),
         w1))"
proof (intro conjI allI impI)
  assume "lower value \<in> set [''true'', ''false'', ''on'', ''off'', ''yes'', ''no'']"
  then show "auto_detect_variant value =
        Inr (Variant (BoolV (lower value \<in> set [''true'', ''on'', ''yes'', ''1''])) Boolean)"
    by (simp add: auto_detect_variant_def)
next
  assume "\<exists>b. auto_detect_variant value = Inr (Variant b Boolean)"
  then show "lower value \<in> set [''true'', ''false'', ''on'', ''off'', ''yes'', ''no'']"
    by (auto simp: auto_detect_variant_def split: if_splits sum.splits)
next
  fix w1 assume "get_data_value L node w = (Inr Boolean, w1)"
  then show "detect_and_convert_value L node value w =
        (Inr (Variant (BoolV (lower value \<in> set [''true'', ''1'', ''on'', ''yes''])) Boolean),
         w1)"
    by (simp add: detect_and_convert_value_def convert_by_type_def)
qed

theorem boolean_coercion_witness:
  "lower ''Yes'' \<in> set [''true'', ''false'', ''on'', ''off'', ''yes'', ''no''] \<and>
   auto_detect_variant ''Yes'' = Inr (Variant (BoolV True) Boolean) \<and>
   auto_detect_variant ''OFF'' = Inr (Variant (BoolV False) Boolean) \<and>
   get_data_value sim (Node ''ns=2;i=5'') online = (Inr Boolean, online) \<and>
   detect_and_convert_value sim (Node ''ns=2;i=5'') ''1'' online =
     (Inr (Variant (BoolV True) Boolean), online) \<and>
   detect_and_convert_value sim (Node ''ns=2;i=5'') ''enabled'' online =
     (Inr (Variant (BoolV False) Boolean), online)"
  using boolean_coercion [of "''Yes''" sim "Node ''ns=2;i=5''" online]
    boolean_coercion [of "''OFF''" sim "Node ''ns=2;i=5''" online]
    boolean_coercion [of "''1''" sim "Node ''ns=2;i=5''" online]
    boolean_coercion [of "''enabled''" sim "Node ''ns=2;i=5''" online]
  by (simp add: sim_eval py_eval)

section \<open>The connection\<close>

text \<open>
  C6: when a call of \<^verbatim>\<open>get_opcua_client\<close> returns a client, the next call returns the same
  client and leaves the whole state as it is (no connect, no change outside). If there was
  no client before the first call, the first call built this client with \<^verbatim>\<open>Client\<close> and the
  outside state it leaves is the one a single \<^verbatim>\<open>connect\<close> of this client returns, applied
  after the construction and the optional credentials: the two calls together made exactly
  one connect. If there was a client already, the first call changed nothing either.
\<close>

theorem get_opcua_client_idempotent:
  assumes "get_opcua_client L cfg s = (Inr c, s1)"
  shows "get_opcua_client L cfg s1 = (Inr c, s1) \<and> opcua_client s1 = Some c \<and>
         connect_calls s1 = connect_calls s + (if opcua_client s = None then 1 else 0) \<and>
         (opcua_client s \<noteq> None \<longrightarrow> s1 = s) \<and>
         (opcua_client s = None \<longrightarrow>
            (\<exists>w1 u.
               new_Client L (server_url cfg) (world s) = (Inr c, w1) \<and>
               connect L c
                 (if truthy (username cfg) \<and> truthy (password cfg)
                  then set_password L c (the (password cfg))
                         (set_user L c (the (username cfg)) w1)
                  else w1) = (Inr u, world s1)))"
  using assms
  by (auto simp: get_opcua_client_def Let_def split: option.splits prod.splits sum.splits)

theorem get_opcua_client_idempotent_witness:
  "get_opcua_client sim sim_cfg (start plant) = (Inr 0, running) \<and>
   opcua_client (start plant) = None \<and>
   new_Client sim (server_url sim_cfg) (world (start plant)) = (Inr 0, plant) \<and>
   connect sim 0 plant = (Inr (), world running) \<and>
   get_opcua_client sim sim_cfg running = (Inr 0, running) \<and>
   connect_calls running = connect_calls (start plant) + 1"
proof -
  have a: "get_opcua_client sim sim_cfg (start plant) = (Inr 0, running)"
    by (simp add: get_opcua_client_def truthy_def sim_eval)
  have b: "new_Client sim (server_url sim_cfg) (world (start plant)) = (Inr 0, plant)"
    by (simp add: sim_eval)
  have c: "connect sim 0 plant = (Inr (), world running)"
    by (simp add: sim_eval)
  show ?thesis using a b c get_opcua_client_idempotent [OF a]
    by (simp add: start_def)
qed

text \<open>
  C2 asks that a failed connect leaves no client behind. Line 23 stores the new client in
  the global before line 34 connects it, and nothing resets the global when \<^verbatim>\<open>connect\<close>
  raises. Run on a server that refuses the connection: the call raises and the global holds
  client 0; the next call returns that client without a connect, also once the server
  accepts connections again, and the client is still not connected.
\<close>

theorem get_opcua_client_keeps_unconnected_client:
  "get_opcua_client sim sim_cfg (start unreachable) =
     (Inl (Exn ''ConnectionRefusedError'' ''Connection refused''), stale unreachable) \<and>
   opcua_client (stale unreachable) = Some 0 \<and>
   get_opcua_client sim sim_cfg (stale unreachable) = (Inr 0, stale unreachable) \<and>
   get_opcua_client sim sim_cfg (stale plant) = (Inr 0, stale plant) \<and>
   connected (world (stale plant)) = False \<and>
   connect_calls (stale plant) = 1"
  by (simp add: get_opcua_client_def truthy_def sim_eval)

section \<open>The loops, one entry at a time\<close>

text \<open>
  Each loop appends one entry per element and hands the outside state on. Entry \<open>i\<close> is
  built from what the library call did for element \<open>i\<close> in the state the first \<open>i\<close>
  elements left behind.
\<close>

lemma browse_children_acc:
  "browse_children L xs acc w =
     (acc @ fst (browse_children L xs [] w), snd (browse_children L xs [] w))"
proof (induction xs arbitrary: acc w)
  case Nil
  show ?case by simp
next
  case (Cons x xs)
  obtain r w1 where g: "get_browse_name L x w = (r, w1)" by (cases "get_browse_name L x w")
  have a: "browse_children L xs (acc @ [child_entry x r]) w1 =
      ((acc @ [child_entry x r]) @ fst (browse_children L xs [] w1), snd (browse_children L xs [] w1))"
    by (rule Cons.IH)
  have b: "browse_children L xs [child_entry x r] w1 =
      ([child_entry x r] @ fst (browse_children L xs [] w1), snd (browse_children L xs [] w1))"
    by (rule Cons.IH)
  show ?case using g a b by simp
qed

lemma browse_children_Cons:
  "browse_children L (x # xs) [] w =
     (child_entry x (fst (get_browse_name L x w)) #
        fst (browse_children L xs [] (snd (get_browse_name L x w))),
      snd (browse_children L xs [] (snd (get_browse_name L x w))))"
proof -
  obtain r w1 where g: "get_browse_name L x w = (r, w1)" by (cases "get_browse_name L x w")
  have "browse_children L (x # xs) [] w = browse_children L xs [child_entry x r] w1"
    using g by simp
  also have "\<dots> = ([child_entry x r] @ fst (browse_children L xs [] w1),
                    snd (browse_children L xs [] w1))"
    by (rule browse_children_acc)
  finally show ?thesis using g by simp
qed

lemma length_browse_children: "length (fst (browse_children L xs [] w)) = length xs"
  by (induction xs arbitrary: w) (simp_all add: browse_children_Cons del: browse_children.simps(2))

lemma nth_browse_children:
  "i < length xs \<Longrightarrow>
   fst (browse_children L xs [] w) ! i =
     child_entry (xs ! i)
       (fst (get_browse_name L (xs ! i) (snd (browse_children L (take i xs) [] w))))"
proof (induction xs arbitrary: i w)
  case Nil
  then show ?case by simp
next
  case (Cons x xs)
  show ?case
  proof (cases i)
    case 0
    then show ?thesis by (simp add: browse_children_Cons del: browse_children.simps(2))
  next
    case (Suc j)
    with Cons.prems have "j < length xs" by simp
    from Cons.IH [OF this] Suc show ?thesis
      by (simp add: browse_children_Cons del: browse_children.simps(2))
  qed
qed

lemma read_nodes_acc:
  "read_nodes L xs acc w = (acc @ fst (read_nodes L xs [] w), snd (read_nodes L xs [] w))"
proof (induction xs arbitrary: acc w)
  case Nil
  show ?case by simp
next
  case (Cons x xs)
  obtain r w1 where g: "get_value L x w = (r, w1)" by (cases "get_value L x w")
  have a: "read_nodes L xs (acc @ [read_slot x r]) w1 =
      ((acc @ [read_slot x r]) @ fst (read_nodes L xs [] w1), snd (read_nodes L xs [] w1))"
    by (rule Cons.IH)
  have b: "read_nodes L xs [read_slot x r] w1 =
      ([read_slot x r] @ fst (read_nodes L xs [] w1), snd (read_nodes L xs [] w1))"
    by (rule Cons.IH)
  show ?case using g a b by simp
qed

lemma read_nodes_Cons:
  "read_nodes L (x # xs) [] w =
     (read_slot x (fst (get_value L x w)) # fst (read_nodes L xs [] (snd (get_value L x w))),
      snd (read_nodes L xs [] (snd (get_value L x w))))"
proof -
  obtain r w1 where g: "get_value L x w = (r, w1)" by (cases "get_value L x w")
  have "read_nodes L (x # xs) [] w = read_nodes L xs [read_slot x r] w1"
    using g by simp
  also have "\<dots> = ([read_slot x r] @ fst (read_nodes L xs [] w1), snd (read_nodes L xs [] w1))"
    by (rule read_nodes_acc)
  finally show ?thesis using g by simp
qed

lemma length_read_nodes: "length (fst (read_nodes L xs [] w)) = length xs"
  by (induction xs arbitrary: w) (simp_all add: read_nodes_Cons del: read_nodes.simps(2))

lemma nth_read_nodes:
  "i < length xs \<Longrightarrow>
   fst (read_nodes L xs [] w) ! i =
     read_slot (xs ! i) (fst (get_value L (xs ! i) (snd (read_nodes L (take i xs) [] w))))"
proof (induction xs arbitrary: i w)
  case Nil
  then show ?case by simp
next
  case (Cons x xs)
  show ?case
  proof (cases i)
    case 0
    then show ?thesis by (simp add: read_nodes_Cons del: read_nodes.simps(2))
  next
    case (Suc j)
    with Cons.prems have "j < length xs" by simp
    from Cons.IH [OF this] Suc show ?thesis
      by (simp add: read_nodes_Cons del: read_nodes.simps(2))
  qed
qed

lemma get_nodes_all:
  "map (get_node L client) node_ids = map Inr nodes \<Longrightarrow> get_nodes L client node_ids = Inr nodes"
  by (induction node_ids arbitrary: nodes) auto

text \<open>
  A dict built from pairs has one item per distinct key, in the order in which the keys
  first occur, and each key holds the value of its last pair.
\<close>

lemma dict_set_fresh: "k \<notin> fst ` set d \<Longrightarrow> dict_set d k v = d @ [(k, v)]"
  by (induction d) auto

lemma keys_dict_set:
  "map fst (dict_set d k v) = (if k \<in> set (map fst d) then map fst d else map fst d @ [k])"
proof (induction d)
  case Nil
  show ?case by simp
next
  case (Cons kv d)
  obtain k' v' where kv: "kv = (k', v')" by (cases kv)
  show ?case
  proof (cases "k' = k")
    case True
    then show ?thesis using kv by simp
  next
    case False
    then show ?thesis using kv Cons.IH by (cases "k \<in> set (map fst d)") simp_all
  qed
qed

lemma foldl_dict_set_distinct:
  "distinct (map fst (d @ kvs)) \<Longrightarrow> foldl (\<lambda>d (k, v). dict_set d k v) d kvs = d @ kvs"
proof (induction kvs arbitrary: d)
  case Nil
  show ?case by simp
next
  case (Cons kv kvs)
  obtain k v where kv: "kv = (k, v)" by (cases kv)
  from Cons.prems kv have fresh: "k \<notin> fst ` set d" by auto
  from Cons.prems kv have "distinct (map fst ((d @ [(k, v)]) @ kvs))" by simp
  from Cons.IH [OF this] show ?case using kv fresh by (simp add: dict_set_fresh)
qed

lemma dict_of_distinct: "distinct (map fst kvs) \<Longrightarrow> dict_of kvs = kvs"
  using foldl_dict_set_distinct [of "[]" kvs] by (simp add: dict_of_def)

lemma keys_foldl_dict_set:
  "distinct (map fst d) \<Longrightarrow>
   distinct (map fst (foldl (\<lambda>d (k, v). dict_set d k v) d kvs)) \<and>
   set (map fst (foldl (\<lambda>d (k, v). dict_set d k v) d kvs)) = set (map fst d) \<union> set (map fst kvs)"
proof (induction kvs arbitrary: d)
  case Nil
  then show ?case by simp
next
  case (Cons kv kvs)
  obtain k v where kv: "kv = (k, v)" by (cases kv)
  from Cons.prems have d: "distinct (map fst (dict_set d k v))"
    by (simp add: keys_dict_set)
  have s: "set (map fst (dict_set d k v)) = insert k (set (map fst d))"
    by (auto simp: keys_dict_set)
  from Cons.IH [OF d] s kv show ?case by auto
qed

lemma length_dict_of: "length (dict_of kvs) = card (set (map fst kvs))"
proof -
  have k: "distinct (map fst (dict_of kvs)) \<and> set (map fst (dict_of kvs)) = set (map fst kvs)"
    using keys_foldl_dict_set [of "[]" kvs] by (simp add: dict_of_def)
  from k have "card (set (map fst (dict_of kvs))) = length (map fst (dict_of kvs))"
    using distinct_card by blast
  with k show ?thesis by simp
qed

lemma keys_dict_of: "map fst (dict_of kvs) = rev (remdups (rev (map fst kvs)))"
proof (induction kvs rule: rev_induct)
  case Nil
  show ?case by (simp add: dict_of_def)
next
  case (snoc kv kvs)
  obtain k v where kv: "kv = (k, v)" by (cases kv)
  have step: "dict_of (kvs @ [kv]) = dict_set (dict_of kvs) k v"
    using kv by (simp add: dict_of_def)
  have mem: "k \<in> set (map fst (dict_of kvs)) \<longleftrightarrow> k \<in> set (map fst kvs)"
    by (simp only: snoc.IH set_rev set_remdups)
  show ?case
  proof (cases "k \<in> set (map fst kvs)")
    case True
    with mem have "map fst (dict_of (kvs @ [kv])) = map fst (dict_of kvs)"
      by (simp only: step keys_dict_set if_True)
    with True snoc.IH kv show ?thesis by simp
  next
    case False
    with mem have "map fst (dict_of (kvs @ [kv])) = map fst (dict_of kvs) @ [k]"
      by (simp only: step keys_dict_set if_False)
    with False snoc.IH kv show ?thesis by simp
  qed
qed

lemma map_of_dict_set: "map_of (dict_set d k v) = (map_of d)(k \<mapsto> v)"
  by (induction d) (auto simp: fun_eq_iff)

lemma map_of_foldl_dict_set:
  "map_of (foldl (\<lambda>d (k, v). dict_set d k v) d kvs) = map_of d ++ map_of (rev kvs)"
proof (induction kvs arbitrary: d)
  case Nil
  show ?case by simp
next
  case (Cons kv kvs)
  obtain k v where kv: "kv = (k, v)" by (cases kv)
  have "map_of (foldl (\<lambda>d (k, v). dict_set d k v) (dict_set d k v) kvs) =
      map_of (dict_set d k v) ++ map_of (rev kvs)"
    by (rule Cons.IH)
  also have "\<dots> = (map_of d ++ [k \<mapsto> v]) ++ map_of (rev kvs)"
    by (simp add: map_of_dict_set)
  also have "\<dots> = map_of d ++ map_of (rev kvs @ [(k, v)])"
    by (simp add: map_add_assoc)
  finally show ?case using kv by simp
qed

lemma map_of_dict_of: "map_of (dict_of kvs) = map_of (rev kvs)"
  using map_of_foldl_dict_set [of "[]" kvs] by (simp add: dict_of_def)

lemma map_of_rev_last:
  assumes i: "i < length kvs"
    and last: "\<forall>j<length kvs. i < j \<longrightarrow> fst (kvs ! j) \<noteq> fst (kvs ! i)"
  shows "map_of (rev kvs) (fst (kvs ! i)) = Some (snd (kvs ! i))"
proof -
  let ?k = "fst (kvs ! i)"
  have split: "kvs = take i kvs @ kvs ! i # drop (Suc i) kvs"
    using i by (simp add: id_take_nth_drop)
  have later: "?k \<notin> fst ` set (drop (Suc i) kvs)"
  proof
    assume "?k \<in> fst ` set (drop (Suc i) kvs)"
    then obtain x where x: "x \<in> set (drop (Suc i) kvs)" and fx: "fst x = ?k" by auto
    from x obtain n where n: "n < length (drop (Suc i) kvs)" and xn: "drop (Suc i) kvs ! n = x"
      by (auto simp: in_set_conv_nth)
    from n have j: "Suc i + n < length kvs" by simp
    with xn have "kvs ! (Suc i + n) = x" by simp
    with last j fx show False by auto
  qed
  then have none: "map_of (rev (drop (Suc i) kvs)) ?k = None"
    by (simp add: map_of_eq_None_iff)
  have "rev kvs = rev (drop (Suc i) kvs) @ kvs ! i # rev (take i kvs)"
    by (subst split) simp
  then have "map_of (rev kvs) ?k =
      (map_of (kvs ! i # rev (take i kvs)) ++ map_of (rev (drop (Suc i) kvs))) ?k"
    by (simp only: map_of_append)
  also have "\<dots> = map_of (kvs ! i # rev (take i kvs)) ?k"
    using none by (simp add: map_add_def)
  also have "\<dots> = Some (snd (kvs ! i))"
    by (cases "kvs ! i") simp
  finally show ?thesis .
qed

text \<open>A missing key in an item of the batch write.\<close>

lemma write_item_missing_key:
  "item ''node_id'' = None \<or> item ''value'' = None \<Longrightarrow>
   \<exists>e w1. write_item L client item w = (Inl e, w1)"
  by (auto simp: write_item_def getitem_def split: option.splits sum.splits prod.splits)

lemma write_item_failed_missing_key:
  "item ''node_id'' = None \<or> item ''value'' = None \<Longrightarrow>
   write_item_failed item e =
     Inl (KeyError (if item ''node_id'' = None then ''node_id'' else ''value''))"
  by (auto simp: write_item_failed_def getitem_def split: option.splits)

lemma write_item_failed_both_keys:
  "\<not> (item ''node_id'' = None \<or> item ''value'' = None) \<Longrightarrow>
   \<exists>r. write_item_failed item e = Inr r"
  by (auto simp: write_item_failed_def getitem_def split: option.splits)

lemma write_items_missing_key:
  "find (\<lambda>item. item ''node_id'' = None \<or> item ''value'' = None) items = Some item \<Longrightarrow>
   \<exists>w1. write_items L client items status_report w =
     (Inl (KeyError (if item ''node_id'' = None then ''node_id'' else ''value'')), w1)"
proof (induction items arbitrary: status_report w)
  case Nil
  then show ?case by simp
next
  case (Cons x xs)
  show ?case
  proof (cases "x ''node_id'' = None \<or> x ''value'' = None")
    case True
    with Cons.prems have x: "item = x" by simp
    from write_item_missing_key [OF True, of L client w] obtain e w1
      where r: "write_item L client x w = (Inl e, w1)" by blast
    from r write_item_failed_missing_key [OF True, of e] x show ?thesis by simp
  next
    case False
    with Cons.prems have f: "find (\<lambda>item. item ''node_id'' = None \<or> item ''value'' = None) xs = Some item"
      by simp
    obtain res w1 where r: "write_item L client x w = (res, w1)"
      by (cases "write_item L client x w")
    show ?thesis
    proof (cases res)
      case (Inr rec)
      with r Cons.IH [OF f, of "status_report @ [rec]" w1] show ?thesis by simp
    next
      case (Inl e)
      from write_item_failed_both_keys [OF False, of e] obtain rec
        where h: "write_item_failed x e = Inr rec" by blast
      with r Inl Cons.IH [OF f, of "status_report @ [rec]" w1] show ?thesis by simp
    qed
  qed
qed

section \<open>Browsing and the batches\<close>

text \<open>
  C9: when the client is acquired, the node id resolves and the children enumerate, the
  tool returns the success text with exactly one entry per child, in the order of the
  children. Entry \<open>i\<close> carries the node id of child \<open>i\<close>, and when the browse name of that
  child cannot be retrieved, its name is the placeholder \<^verbatim>\<open>Error getting name: \<close> followed
  by the message of the error.
\<close>

theorem browse_children_complete:
  assumes acq: "get_opcua_client L cfg s = (Inr client, s1)"
    and node: "get_node L client node_id = Inr node"
    and ch: "get_children L node (world s1) = (Inr children, w1)"
  shows "\<exists>info w2.
     browse_opcua_node_children L cfg node_id s = (Success_text info, s1\<lparr>world := w2\<rparr>) \<and>
     length info = length children \<and>
     (\<forall>i<length children.
        \<exists>r. r = fst (get_browse_name L (children ! i)
                      (snd (browse_children L (take i children) [] w1))) \<and>
            info ! i = child_entry (children ! i) r \<and>
            map_of (info ! i) ''node_id'' = Some (nodeid (children ! i)) \<and>
            (\<forall>e. r = Inl e \<longrightarrow>
               map_of (info ! i) ''browse_name'' = Some (''Error getting name: '' @ exn_msg e)))"
proof -
  let ?info = "fst (browse_children L children [] w1)"
  let ?w2 = "snd (browse_children L children [] w1)"
  have "browse_opcua_node_children L cfg node_id s = (Success_text ?info, s1\<lparr>world := ?w2\<rparr>)"
    using acq node ch by (simp add: browse_opcua_node_children_def split: prod.splits)
  moreover have "length ?info = length children" by (rule length_browse_children)
  moreover have "\<forall>i<length children.
        \<exists>r. r = fst (get_browse_name L (children ! i)
                      (snd (browse_children L (take i children) [] w1))) \<and>
            ?info ! i = child_entry (children ! i) r \<and>
            map_of (?info ! i) ''node_id'' = Some (nodeid (children ! i)) \<and>
            (\<forall>e. r = Inl e \<longrightarrow>
               map_of (?info ! i) ''browse_name'' = Some (''Error getting name: '' @ exn_msg e))"
    by (auto simp: nth_browse_children child_entry_def split: sum.splits)
  ultimately show ?thesis by blast
qed

theorem browse_children_complete_witness:
  "get_opcua_client sim sim_cfg (start plant) = (Inr 0, running) \<and>
   get_node sim 0 (StrV ''ns=2;i=1'') = Inr (Node ''ns=2;i=1'') \<and>
   get_children sim (Node ''ns=2;i=1'') (world running) =
     (Inr [Node ''ns=2;i=2'', Node ''ns=2;i=9''], online) \<and>
   get_browse_name sim (Node ''ns=2;i=9'') online =
     (Inl (Exn ''BadNodeIdUnknown'' ''The node id does not exist''), online) \<and>
   browse_opcua_node_children sim sim_cfg (StrV ''ns=2;i=1'') (start plant) =
     (Success_text
        [[(''node_id'', ''ns=2;i=2''), (''browse_name'', ''2:Speed'')],
         [(''node_id'', ''ns=2;i=9''),
          (''browse_name'', ''Error getting name: The node id does not exist'')]],
      running)"
proof -
  have a: "get_opcua_client sim sim_cfg (start plant) = (Inr 0, running)"
    by (simp add: run_eval sim_eval)
  have b: "get_node sim 0 (StrV ''ns=2;i=1'') = Inr (Node ''ns=2;i=1'')"
    by (simp add: sim_eval)
  have c: "get_children sim (Node ''ns=2;i=1'') (world running) =
     (Inr [Node ''ns=2;i=2'', Node ''ns=2;i=9''], online)"
    by (simp add: sim_eval)
  have d: "get_browse_name sim (Node ''ns=2;i=9'') online =
     (Inl (Exn ''BadNodeIdUnknown'' ''The node id does not exist''), online)"
    by (simp add: sim_eval)
  have e: "browse_opcua_node_children sim sim_cfg (StrV ''ns=2;i=1'') (start plant) =
     (Success_text
        [[(''node_id'', ''ns=2;i=2''), (''browse_name'', ''2:Speed'')],
         [(''node_id'', ''ns=2;i=9''),
          (''browse_name'', ''Error getting name: The node id does not exist'')]],
      running)"
    by (simp add: run_eval sim_eval str_nat.simps)
  show ?thesis using a b c d e browse_children_complete [OF a b c] by simp
qed

text \<open>
  C1, as the code has it. When the client is acquired and every id resolves to a node
  handle, the tool returns the success text with a dict that has exactly one entry per
  distinct rendered node id: its keys are distinct, they are the rendered ids of the nodes,
  and they stand in the order in which the ids first occur (\<open>rev (remdups (rev ks))\<close> keeps
  the first occurrence of each element of \<open>ks\<close>). The entry of an id holds what the last
  read of that id gave: the value read or, when that read failed, the error text of that
  node. When the rendered ids are pairwise distinct, that is one entry per input id, in
  input order, entry \<open>i\<close> pairing the id of node \<open>i\<close> with the outcome of its read; a failed
  read neither ends the batch nor removes another entry.
\<close>

theorem read_multiple_one_entry_per_id:
  assumes acq: "get_opcua_client L cfg s = (Inr client, s1)"
    and res: "map (get_node L client) node_ids = map Inr nodes"
  shows "\<exists>results w1.
     read_multiple_opcua_nodes L cfg node_ids s = (Success_text results, s1\<lparr>world := w1\<rparr>) \<and>
     distinct (map fst results) \<and>
     set (map fst results) = set (map nodeid nodes) \<and>
     map fst results = rev (remdups (rev (map nodeid nodes))) \<and>
     length results = card (set (map nodeid nodes)) \<and>
     (\<forall>i<length nodes.
        (\<forall>j<length nodes. i < j \<longrightarrow> nodeid (nodes ! j) \<noteq> nodeid (nodes ! i)) \<longrightarrow>
        map_of results (nodeid (nodes ! i)) =
          Some (read_slot (nodes ! i)
                 (fst (get_value L (nodes ! i)
                        (snd (read_nodes L (take i nodes) [] (world s1))))))) \<and>
     (distinct (map nodeid nodes) \<longrightarrow>
        length results = length node_ids \<and>
        (\<forall>i<length node_ids.
           results ! i =
             (nodeid (nodes ! i),
              read_slot (nodes ! i)
                (fst (get_value L (nodes ! i)
                       (snd (read_nodes L (take i nodes) [] (world s1))))))))"
proof -
  let ?vals = "fst (read_nodes L nodes [] (world s1))"
  let ?w1 = "snd (read_nodes L nodes [] (world s1))"
  let ?kvs = "zip (map nodeid nodes) ?vals"
  let ?slot = "\<lambda>i. read_slot (nodes ! i)
                 (fst (get_value L (nodes ! i)
                        (snd (read_nodes L (take i nodes) [] (world s1)))))"
  have len: "length nodes = length node_ids"
    using arg_cong [OF res, of length] by simp
  have lv: "length ?vals = length nodes" by (rule length_read_nodes)
  have lk: "length ?kvs = length nodes" using lv by simp
  have keys: "map fst ?kvs = map nodeid nodes" using lv by (simp add: map_fst_zip)
  have run: "read_multiple_opcua_nodes L cfg node_ids s =
      (Success_text (dict_of ?kvs), s1\<lparr>world := ?w1\<rparr>)"
    using acq get_nodes_all [OF res]
    by (simp add: read_multiple_opcua_nodes_def split: prod.splits)
  have order: "map fst (dict_of ?kvs) = rev (remdups (rev (map nodeid nodes)))"
    using keys_dict_of [of ?kvs] keys by simp
  have dist_keys: "distinct (map fst (dict_of ?kvs))"
    by (simp only: order distinct_rev distinct_remdups)
  have set_keys: "set (map fst (dict_of ?kvs)) = set (map nodeid nodes)"
    by (simp only: order set_rev set_remdups)
  have card: "length (dict_of ?kvs) = card (set (map nodeid nodes))"
    using length_dict_of [of ?kvs] keys by simp
  have last: "\<forall>i<length nodes.
        (\<forall>j<length nodes. i < j \<longrightarrow> nodeid (nodes ! j) \<noteq> nodeid (nodes ! i)) \<longrightarrow>
        map_of (dict_of ?kvs) (nodeid (nodes ! i)) = Some (?slot i)"
  proof (intro allI impI)
    fix i
    assume i: "i < length nodes"
      and later: "\<forall>j<length nodes. i < j \<longrightarrow> nodeid (nodes ! j) \<noteq> nodeid (nodes ! i)"
    have ikv: "i < length ?kvs" using i lk by simp
    have entry: "\<And>j. j < length nodes \<Longrightarrow> ?kvs ! j = (nodeid (nodes ! j), ?vals ! j)"
      using lv by simp
    have "\<forall>j<length ?kvs. i < j \<longrightarrow> fst (?kvs ! j) \<noteq> fst (?kvs ! i)"
      using later i lk entry by simp
    from map_of_rev_last [OF ikv this]
    have "map_of (rev ?kvs) (nodeid (nodes ! i)) = Some (?vals ! i)"
      using entry [OF i] by simp
    then show "map_of (dict_of ?kvs) (nodeid (nodes ! i)) = Some (?slot i)"
      using i by (simp add: map_of_dict_of nth_read_nodes)
  qed
  have dist: "distinct (map nodeid nodes) \<longrightarrow>
        length (dict_of ?kvs) = length node_ids \<and>
        (\<forall>i<length node_ids. dict_of ?kvs ! i = (nodeid (nodes ! i), ?slot i))"
  proof
    assume d: "distinct (map nodeid nodes)"
    then have eq: "dict_of ?kvs = ?kvs" using keys by (simp add: dict_of_distinct)
    show "length (dict_of ?kvs) = length node_ids \<and>
        (\<forall>i<length node_ids. dict_of ?kvs ! i = (nodeid (nodes ! i), ?slot i))"
      using lv len by (simp add: eq nth_read_nodes)
  qed
  from run dist_keys set_keys order card last dist show ?thesis by blast
qed

theorem read_multiple_one_entry_per_id_witness:
  "get_opcua_client sim sim_cfg (start plant) = (Inr 0, running) \<and>
   map (get_node sim 0) [StrV ''ns=2;i=2'', StrV ''ns=2;i=7'', StrV ''ns=2;i=3''] =
     map Inr [Node ''ns=2;i=2'', Node ''ns=2;i=7'', Node ''ns=2;i=3''] \<and>
   distinct (map nodeid [Node ''ns=2;i=2'', Node ''ns=2;i=7'', Node ''ns=2;i=3'']) \<and>
   read_multiple_opcua_nodes sim sim_cfg
       [StrV ''ns=2;i=2'', StrV ''ns=2;i=7'', StrV ''ns=2;i=3''] (start plant) =
     (Success_text
        [(''ns=2;i=2'', Obj (IntV 0)),
         (''ns=2;i=7'', Text ''Error reading node ns=2;i=7: The node id does not exist''),
         (''ns=2;i=3'', Obj (StrV ''idle''))],
      running)"
proof -
  have a: "get_opcua_client sim sim_cfg (start plant) = (Inr 0, running)"
    by (simp add: run_eval sim_eval)
  have b: "map (get_node sim 0) [StrV ''ns=2;i=2'', StrV ''ns=2;i=7'', StrV ''ns=2;i=3''] =
     map Inr [Node ''ns=2;i=2'', Node ''ns=2;i=7'', Node ''ns=2;i=3'']"
    by (simp add: sim_eval)
  have c: "read_multiple_opcua_nodes sim sim_cfg
       [StrV ''ns=2;i=2'', StrV ''ns=2;i=7'', StrV ''ns=2;i=3''] (start plant) =
     (Success_text
        [(''ns=2;i=2'', Obj (IntV 0)),
         (''ns=2;i=7'', Text ''Error reading node ns=2;i=7: The node id does not exist''),
         (''ns=2;i=3'', Obj (StrV ''idle''))],
      running)"
    by (simp add: run_eval sim_eval)
  have d: "distinct (map nodeid [Node ''ns=2;i=2'', Node ''ns=2;i=7'', Node ''ns=2;i=3''])"
    by simp
  from read_multiple_one_entry_per_id [OF a b] a b c d show ?thesis by blast
qed

text \<open>
  Repeated ids are not kept apart: the results are a dict keyed by the rendered id, and two
  reads of the same node leave one entry.
\<close>

theorem read_multiple_one_entry_per_id_counterexample:
  "read_multiple_opcua_nodes sim sim_cfg [StrV ''ns=2;i=2'', StrV ''ns=2;i=2''] (start plant) =
     (Success_text [(''ns=2;i=2'', Obj (IntV 0))], running)"
  by (simp add: run_eval sim_eval)

text \<open>
  C7: for a list of two items that both have the keys \<^verbatim>\<open>node_id\<close> and \<^verbatim>\<open>value\<close>, when the
  first item resolves, is written and is read back, and \<^verbatim>\<open>get_node\<close> raises for the second,
  the tool returns the success text with exactly two status records, in input order: the
  first with status \<^verbatim>\<open>Success\<close> and the value read back, the second with the status
  \<^verbatim>\<open>Error: \<close> followed by the message of the error.
\<close>

theorem write_multiple_bad_second_item:
  assumes acq: "get_opcua_client L cfg s = (Inr client, s1)"
    and a: "item_a ''node_id'' = Some nid_a" "item_a ''value'' = Some val_a"
    and na: "get_node L client nid_a = Inr node_a"
    and conv: "detect_and_convert_value L node_a (py_str L val_a) (world s1) = (Inr variant, w1)"
    and wr: "set_data_value L node_a variant w1 = (Inr u, w2)"
    and rd: "get_value L node_a w2 = (Inr new_value, w3)"
    and b: "item_b ''node_id'' = Some nid_b" "item_b ''value'' = Some val_b"
    and nb: "get_node L client nid_b = Inl e"
  shows "write_multiple_opcua_nodes L cfg [item_a, item_b] s =
     (Success_text
        [[(''node_id'', Obj nid_a), (''value_written'', Obj val_a),
          (''verified_value'', Obj new_value), (''status'', Text ''Success'')],
         [(''node_id'', Obj nid_b), (''value_written'', Obj val_b),
          (''status'', Text (''Error: '' @ exn_msg e))]],
      s1\<lparr>world := w3\<rparr>)"
proof -
  have first: "write_item L client item_a (world s1) =
      (Inr [(''node_id'', Obj nid_a), (''value_written'', Obj val_a),
            (''verified_value'', Obj new_value), (''status'', Text ''Success'')], w3)"
    using a na conv wr rd by (simp add: write_item_def getitem_def)
  have second: "write_item L client item_b w3 = (Inl e, w3)"
    using b nb by (simp add: write_item_def getitem_def)
  have handler: "write_item_failed item_b e =
      Inr [(''node_id'', Obj nid_b), (''value_written'', Obj val_b),
           (''status'', Text (''Error: '' @ exn_msg e))]"
    using b by (simp add: write_item_failed_def getitem_def)
  show ?thesis using acq first second handler
    by (simp add: write_multiple_opcua_nodes_def)
qed

theorem write_multiple_bad_second_item_witness:
  "get_opcua_client sim sim_cfg (start plant) = (Inr 0, running) \<and>
   get_node sim 0 (StrV ''ns=2;i=2'') = Inr (Node ''ns=2;i=2'') \<and>
   detect_and_convert_value sim (Node ''ns=2;i=2'') (py_str sim (StrV ''10'')) (world running) =
     (Inr (Variant (IntV 10) Int16), online) \<and>
   set_data_value sim (Node ''ns=2;i=2'') (Variant (IntV 10) Int16) online = (Inr (), written) \<and>
   get_value sim (Node ''ns=2;i=2'') written = (Inr (IntV 10), written) \<and>
   get_node sim 0 (StrV ''BAD'') = Inl (Exn ''UaStringParsingError'' ''Error parsing string BAD'') \<and>
   write_multiple_opcua_nodes sim sim_cfg [item_good, item_bad_id] (start plant) =
     (Success_text
        [[(''node_id'', Obj (StrV ''ns=2;i=2'')), (''value_written'', Obj (StrV ''10'')),
          (''verified_value'', Obj (IntV 10)), (''status'', Text ''Success'')],
         [(''node_id'', Obj (StrV ''BAD'')), (''value_written'', Obj (StrV ''x'')),
          (''status'', Text ''Error: Error parsing string BAD'')]],
      running\<lparr>world := written\<rparr>)"
proof -
  have acq: "get_opcua_client sim sim_cfg (start plant) = (Inr 0, running)"
    by (simp add: run_eval sim_eval)
  have a1: "item_good ''node_id'' = Some (StrV ''ns=2;i=2'')" by (simp add: item_eval)
  have a2: "item_good ''value'' = Some (StrV ''10'')" by (simp add: item_eval)
  have na: "get_node sim 0 (StrV ''ns=2;i=2'') = Inr (Node ''ns=2;i=2'')"
    by (simp add: sim_eval)
  have conv: "detect_and_convert_value sim (Node ''ns=2;i=2'') (py_str sim (StrV ''10''))
      (world running) = (Inr (Variant (IntV 10) Int16), online)"
    by (simp add: run_eval sim_eval py_eval)
  have wr: "set_data_value sim (Node ''ns=2;i=2'') (Variant (IntV 10) Int16) online =
      (Inr (), written)"
    by (simp add: sim_eval item_eval)
  have rd: "get_value sim (Node ''ns=2;i=2'') written = (Inr (IntV 10), written)"
    by (simp add: sim_eval item_eval)
  have b1: "item_bad_id ''node_id'' = Some (StrV ''BAD'')" by (simp add: item_eval)
  have b2: "item_bad_id ''value'' = Some (StrV ''x'')" by (simp add: item_eval)
  have nb: "get_node sim 0 (StrV ''BAD'') =
      Inl (Exn ''UaStringParsingError'' ''Error parsing string BAD'')"
    by (simp add: sim_eval)
  show ?thesis
    using acq na conv wr rd nb
      write_multiple_bad_second_item [OF acq a1 a2 na conv wr rd b1 b2 nb]
    by simp
qed

text \<open>
  C10: when some item lacks the key \<^verbatim>\<open>node_id\<close> or the key \<^verbatim>\<open>value\<close>, the inner handler
  raises a KeyError for the first such item instead of building its record (for
  \<^verbatim>\<open>node_id\<close> when that key is missing, for \<^verbatim>\<open>value\<close> otherwise), and the tool returns
  the text of the outer handler with no status record at all; once the client is acquired,
  the exception in that text is this KeyError.
\<close>

theorem write_multiple_missing_key:
  assumes "find (\<lambda>item. item ''node_id'' = None \<or> item ''value'' = None) nodes_to_write =
             Some item"
  shows "(\<forall>e. write_item_failed item e =
            Inl (KeyError (if item ''node_id'' = None then ''node_id'' else ''value''))) \<and>
         (\<exists>e s'. write_multiple_opcua_nodes L cfg nodes_to_write s = (Error_text e, s') \<and>
            (\<forall>client s1. get_opcua_client L cfg s = (Inr client, s1) \<longrightarrow>
               e = KeyError (if item ''node_id'' = None then ''node_id'' else ''value'') \<and>
               (\<exists>w1. s' = s1\<lparr>world := w1\<rparr>)))"
proof
  from assms have bad: "item ''node_id'' = None \<or> item ''value'' = None"
    by (auto dest: find_Some_iff [THEN iffD1])
  show "\<forall>e. write_item_failed item e =
            Inl (KeyError (if item ''node_id'' = None then ''node_id'' else ''value''))"
    using write_item_failed_missing_key [OF bad] by blast
  obtain res s1 where g: "get_opcua_client L cfg s = (res, s1)"
    by (cases "get_opcua_client L cfg s")
  show "\<exists>e s'. write_multiple_opcua_nodes L cfg nodes_to_write s = (Error_text e, s') \<and>
            (\<forall>client s1. get_opcua_client L cfg s = (Inr client, s1) \<longrightarrow>
               e = KeyError (if item ''node_id'' = None then ''node_id'' else ''value'') \<and>
               (\<exists>w1. s' = s1\<lparr>world := w1\<rparr>))"
  proof (cases res)
    case (Inl e)
    with g show ?thesis by (simp add: write_multiple_opcua_nodes_def)
  next
    case (Inr client)
    from write_items_missing_key [OF assms, of L client "[]" "world s1"] obtain w1
      where "write_items L client nodes_to_write [] (world s1) =
        (Inl (KeyError (if item ''node_id'' = None then ''node_id'' else ''value'')), w1)"
      by blast
    with g Inr show ?thesis by (auto simp: write_multiple_opcua_nodes_def)
  qed
qed

theorem write_multiple_missing_key_witness:
  "find (\<lambda>item. item ''node_id'' = None \<or> item ''value'' = None) [item_good, item_no_value] =
     Some item_no_value \<and>
   get_opcua_client sim sim_cfg (start plant) = (Inr 0, running) \<and>
   write_multiple_opcua_nodes sim sim_cfg [item_good, item_no_value] (start plant) =
     (Error_text (KeyError ''value''), running\<lparr>world := written\<rparr>)"
proof -
  have f: "find (\<lambda>item. item ''node_id'' = None \<or> item ''value'' = None)
      [item_good, item_no_value] = Some item_no_value"
    by (simp add: item_eval)
  have a: "get_opcua_client sim sim_cfg (start plant) = (Inr 0, running)"
    by (simp add: run_eval sim_eval)
  have r: "write_multiple_opcua_nodes sim sim_cfg [item_good, item_no_value] (start plant) =
     (Error_text (KeyError ''value''), running\<lparr>world := written\<rparr>)"
    by (simp add: run_eval sim_eval py_eval item_eval)
  show ?thesis
    using f a r write_multiple_missing_key [OF f, of sim sim_cfg "start plant"] by simp
qed

end
